theory Spec2Isabelle
  imports Main "HOL-Library.Multiset"
begin

section \<open>Password Generator v2.0: the generator and the strength scorer\<close>

text \<open>
  A shallow embedding of class \<open>PasswordGenerator\<close> of \<^verbatim>\<open>password_generator_v2.py\<close>:
  \<open>generate\<close>, \<open>generate_multiple\<close>, \<open>generate_memorable\<close> and \<open>check_strength\<close>.

  A Python \<open>str\<close> is a \<open>string\<close>; each \<open>char\<close> stands for the code point of the
  same number, so the strings of the model are the ones over code points 0 to 255.
  Every constant of the class (the four alphabets, the ambiguous characters, the
  word list) is ASCII. Python's \<open>int\<close> is \<open>int\<close>.
\<close>

subsection \<open>Errors\<close>

text \<open>
  The exceptions the modelled code can raise: the \<open>ValueError\<close> of \<open>generate\<close>
  and of \<open>secrets.randbelow\<close>, and the \<open>IndexError\<close> of \<open>secrets.choice\<close> on an
  empty sequence. A computation that may raise returns \<open>error + 'a\<close>, with \<open>Inl\<close>
  the exception.
\<close>

datatype error = ValueError string | IndexError string

definition on_ok :: "error + 'a \<Rightarrow> ('a \<Rightarrow> error + 'b) \<Rightarrow> error + 'b" where
  "on_ok r f = (case r of Inl e \<Rightarrow> Inl e | Inr x \<Rightarrow> f x)"

subsection \<open>The random source\<close>

text \<open>
  Module \<open>secrets\<close> reads the operating system's entropy. The model makes the
  source explicit: an infinite tape of natural numbers, read from the front; each
  draw consumes one cell and the rest of the tape is handed on. A draw below \<open>n\<close>
  is the cell reduced modulo \<open>n\<close>, so every value below \<open>n\<close> can be drawn and
  nothing else can.
\<close>

type_synonym rng = "nat \<Rightarrow> nat"

definition advance :: "rng \<Rightarrow> rng" where
  "advance g = (\<lambda>i. g (Suc i))"

text \<open>\<open>Random._randbelow(n)\<close> for \<open>n > 0\<close>, as \<open>shuffle\<close> calls it.\<close>

definition randbelow_pos :: "nat \<Rightarrow> rng \<Rightarrow> nat \<times> rng" where
  "randbelow_pos n g = (g 0 mod n, advance g)"

text \<open>\<open>secrets.randbelow(n)\<close>: raises \<open>ValueError\<close> unless \<open>n\<close> is positive.\<close>

definition randbelow :: "int \<Rightarrow> rng \<Rightarrow> error + (nat \<times> rng)" where
  "randbelow n g =
     (if n \<le> 0 then Inl (ValueError ''Upper bound must be positive'')
      else Inr (randbelow_pos (nat n) g))"

text \<open>
  \<open>secrets.choice(seq)\<close>: raises \<open>IndexError\<close> on an empty sequence, otherwise
  returns \<open>seq[randbelow(len(seq))]\<close>.
\<close>

definition choice :: "'a list \<Rightarrow> rng \<Rightarrow> error + ('a \<times> rng)" where
  "choice seq g =
     (if seq = [] then Inl (IndexError ''Cannot choose from an empty sequence'')
      else (case randbelow_pos (length seq) g of (i, g') \<Rightarrow> Inr (seq ! i, g')))"

text \<open>The comprehension \<open>[secrets.choice(seq) for _ in range(n)]\<close>.\<close>

fun choices :: "nat \<Rightarrow> 'a list \<Rightarrow> rng \<Rightarrow> error + ('a list \<times> rng)" where
  "choices 0 seq g = Inr ([], g)"
| "choices (Suc n) seq g =
     on_ok (choice seq g) (\<lambda>(x, g').
     on_ok (choices n seq g') (\<lambda>(xs, g'').
     Inr (x # xs, g'')))"

text \<open>
  \<open>Random.shuffle(x)\<close>, which \<open>secrets.SystemRandom().shuffle\<close> runs:
  \<^verbatim>\<open>for i in reversed(range(1, len(x))): j = randbelow(i + 1); x[i], x[j] = x[j], x[i]\<close>.
  \<open>shuffle_from i\<close> is the loop from index \<open>i\<close> down to 1.
\<close>

fun shuffle_from :: "nat \<Rightarrow> 'a list \<Rightarrow> rng \<Rightarrow> 'a list \<times> rng" where
  "shuffle_from 0 x g = (x, g)"
| "shuffle_from (Suc i) x g =
     (case randbelow_pos (Suc i + 1) g of (j, g') \<Rightarrow>
        shuffle_from i (x[Suc i := x ! j, j := x ! Suc i]) g')"

definition shuffle :: "'a list \<Rightarrow> rng \<Rightarrow> 'a list \<times> rng" where
  "shuffle x g = shuffle_from (length x - 1) x g"

subsection \<open>The alphabets\<close>

definition uppercase :: string where
  "uppercase = ''ABCDEFGHIJKLMNOPQRSTUVWXYZ''"

definition lowercase :: string where
  "lowercase = ''abcdefghijklmnopqrstuvwxyz''"

definition digits :: string where
  "digits = ''0123456789''"

text \<open>
  \<open>string.punctuation\<close>: the 32 printable ASCII characters that are neither
  letters, digits nor the space, in code order (0x21 to 0x2F, 0x3A to 0x40,
  0x5B to 0x60, 0x7B to 0x7E).
\<close>

definition punctuation :: string where
  "punctuation =
     [CHR 0x21, CHR 0x22, CHR 0x23, CHR 0x24, CHR 0x25, CHR 0x26, CHR 0x27, CHR 0x28,
      CHR 0x29, CHR 0x2A, CHR 0x2B, CHR 0x2C, CHR 0x2D, CHR 0x2E, CHR 0x2F,
      CHR 0x3A, CHR 0x3B, CHR 0x3C, CHR 0x3D, CHR 0x3E, CHR 0x3F, CHR 0x40,
      CHR 0x5B, CHR 0x5C, CHR 0x5D, CHR 0x5E, CHR 0x5F, CHR 0x60,
      CHR 0x7B, CHR 0x7C, CHR 0x7D, CHR 0x7E]"

definition symbols :: string where
  "symbols = punctuation"

definition ambiguous :: string where
  "ambiguous = ''il1Lo0O''"

text \<open>The filter \<open>''.join(c for c in s if c not in self.ambiguous)\<close>.\<close>

definition unambiguous :: "string \<Rightarrow> string" where
  "unambiguous s = filter (\<lambda>c. c \<notin> set ambiguous) s"

subsection \<open>generate\<close>

text \<open>
  The four blocks of \<open>generate\<close> that build \<open>chars\<close> and \<open>required\<close>. Each takes
  and returns the triple of \<open>chars\<close>, \<open>required\<close> and the random source.
  \<open>required\<close> is a list of one-character strings in the source, joined at the end
  by \<open>''.join\<close>: here it is the list of these characters.
\<close>

type_synonym gen_state = "string \<times> string \<times> rng"

definition upper_block :: "bool \<Rightarrow> bool \<Rightarrow> gen_state \<Rightarrow> error + gen_state" where
  "upper_block use_upper exclude_ambiguous st =
     (case st of (chars, required, g) \<Rightarrow>
        if use_upper then
          (let chars = chars @ uppercase;
               chars = (if exclude_ambiguous then unambiguous chars else chars)
           in on_ok (choice (if exclude_ambiguous then unambiguous uppercase else uppercase) g)
                (\<lambda>(c, g'). Inr (chars, required @ [c], g')))
        else Inr (chars, required, g))"

definition lower_block :: "bool \<Rightarrow> bool \<Rightarrow> gen_state \<Rightarrow> error + gen_state" where
  "lower_block use_lower exclude_ambiguous st =
     (case st of (chars, required, g) \<Rightarrow>
        if use_lower then
          (let lower_chars = lowercase;
               lower_chars = (if exclude_ambiguous then unambiguous lower_chars else lower_chars);
               chars = chars @ lower_chars
           in on_ok (choice lower_chars g)
                (\<lambda>(c, g'). Inr (chars, required @ [c], g')))
        else Inr (chars, required, g))"

definition digits_block :: "bool \<Rightarrow> bool \<Rightarrow> gen_state \<Rightarrow> error + gen_state" where
  "digits_block use_digits exclude_ambiguous st =
     (case st of (chars, required, g) \<Rightarrow>
        if use_digits then
          (let digit_chars = digits;
               digit_chars = (if exclude_ambiguous then unambiguous digit_chars else digit_chars);
               chars = chars @ digit_chars
           in on_ok (choice digit_chars g)
                (\<lambda>(c, g'). Inr (chars, required @ [c], g')))
        else Inr (chars, required, g))"

definition symbols_block :: "bool \<Rightarrow> gen_state \<Rightarrow> error + gen_state" where
  "symbols_block use_symbols st =
     (case st of (chars, required, g) \<Rightarrow>
        if use_symbols then
          (let chars = chars @ symbols
           in on_ok (choice symbols g)
                (\<lambda>(c, g'). Inr (chars, required @ [c], g')))
        else Inr (chars, required, g))"

text \<open>
  The rest of \<open>generate\<close>: the check that some character type was selected, the
  minimum length, the filler draws and the shuffle. \<open>len\<close> is the source's
  \<open>length\<close>; \<open>range\<close> of a negative number is empty, as \<open>nat\<close> of it is 0.
\<close>

definition fill_and_shuffle :: "int \<Rightarrow> gen_state \<Rightarrow> error + (string \<times> rng)" where
  "fill_and_shuffle len st =
     (case st of (chars, required, g) \<Rightarrow>
        if chars = [] then
          Inl (ValueError ''At least one character type must be selected'')
        else
          (let len = (if len < int (length required) then int (length required) else len);
               password = required
           in on_ok (choices (nat (len - int (length required))) chars g)
                (\<lambda>(filler, g'). Inr (shuffle (password @ filler) g'))))"

definition generate ::
  "int \<Rightarrow> bool \<Rightarrow> bool \<Rightarrow> bool \<Rightarrow> bool \<Rightarrow> bool \<Rightarrow> rng \<Rightarrow> error + (string \<times> rng)" where
  "generate len use_upper use_lower use_digits use_symbols exclude_ambiguous g =
     on_ok (upper_block use_upper exclude_ambiguous ([], [], g)) (\<lambda>st.
     on_ok (lower_block use_lower exclude_ambiguous st) (\<lambda>st.
     on_ok (digits_block use_digits exclude_ambiguous st) (\<lambda>st.
     on_ok (symbols_block use_symbols st) (\<lambda>st.
     fill_and_shuffle len st))))"

text \<open>
  \<open>generate_multiple(count, **kwargs)\<close>: the comprehension
  \<open>[self.generate(**kwargs) for _ in range(count)]\<close>, with the six arguments of
  \<open>generate\<close> given; \<open>cnt\<close> is the source's \<open>count\<close>. \<open>range(count)\<close> is empty
  for a negative \<open>count\<close>.
\<close>

fun generate_times ::
  "nat \<Rightarrow> int \<Rightarrow> bool \<Rightarrow> bool \<Rightarrow> bool \<Rightarrow> bool \<Rightarrow> bool \<Rightarrow> rng \<Rightarrow> error + (string list \<times> rng)" where
  "generate_times 0 len uu ul ud us ex g = Inr ([], g)"
| "generate_times (Suc n) len uu ul ud us ex g =
     on_ok (generate len uu ul ud us ex g) (\<lambda>(pw, g').
     on_ok (generate_times n len uu ul ud us ex g') (\<lambda>(pws, g'').
     Inr (pw # pws, g'')))"

definition generate_multiple ::
  "int \<Rightarrow> int \<Rightarrow> bool \<Rightarrow> bool \<Rightarrow> bool \<Rightarrow> bool \<Rightarrow> bool \<Rightarrow> rng \<Rightarrow> error + (string list \<times> rng)" where
  "generate_multiple cnt len use_upper use_lower use_digits use_symbols exclude_ambiguous g =
     generate_times (nat cnt) len use_upper use_lower use_digits use_symbols exclude_ambiguous g"

subsection \<open>generate_memorable\<close>

definition word_list :: "string list" where
  "word_list =
     [''alpha'', ''bravo'', ''charlie'', ''delta'', ''echo'', ''foxtrot'',
      ''golf'', ''hotel'', ''india'', ''juliet'', ''kilo'', ''lima'',
      ''mike'', ''november'', ''oscar'', ''papa'', ''quebec'', ''romeo'',
      ''sierra'', ''tango'', ''uniform'', ''victor'', ''whiskey'', ''xray'',
      ''yankee'', ''zulu'', ''coffee'', ''python'', ''tiger'', ''ocean'',
      ''mountain'', ''river'', ''forest'', ''desert'', ''cloud'', ''thunder'',
      ''lightning'', ''rainbow'', ''sunset'', ''sunrise'', ''winter'', ''summer'']"

text \<open>
  \<open>str.capitalize\<close>: the first character in upper case, the others in lower
  case. The source applies it to entries of \<open>word_list\<close> only, so the case
  mappings are the ones of the ASCII letters.
\<close>

definition ascii_upper :: "char \<Rightarrow> char" where
  "ascii_upper c =
     (let n = (of_char c :: nat) in if 97 \<le> n \<and> n \<le> 122 then char_of (n - 32) else c)"

definition ascii_lower :: "char \<Rightarrow> char" where
  "ascii_lower c =
     (let n = (of_char c :: nat) in if 65 \<le> n \<and> n \<le> 90 then char_of (n + 32) else c)"

definition str_capitalize :: "string \<Rightarrow> string" where
  "str_capitalize w = (case w of [] \<Rightarrow> [] | c # cs \<Rightarrow> ascii_upper c # map ascii_lower cs)"

text \<open>\<open>separator.join(selected)\<close>.\<close>

fun join :: "string \<Rightarrow> string list \<Rightarrow> string" where
  "join sep [] = []"
| "join sep [w] = w"
| "join sep (w # ws) = w @ sep @ join sep ws"

text \<open>\<open>str(n)\<close> for an \<open>int\<close> that is not negative: its decimal digits.\<close>

definition digit_char :: "nat \<Rightarrow> char" where
  "digit_char d = ''0123456789'' ! d"

fun str_of_nat :: "nat \<Rightarrow> string" where
  "str_of_nat n =
     (if n < 10 then [digit_char n] else str_of_nat (n div 10) @ [digit_char (n mod 10)])"

declare str_of_nat.simps [simp del]

text \<open>
  \<open>generate_memorable(words, separator, capitalize, add_number)\<close>; \<open>range(words)\<close>
  is empty for a negative \<open>words\<close>.
\<close>

definition generate_memorable ::
  "int \<Rightarrow> string \<Rightarrow> bool \<Rightarrow> bool \<Rightarrow> rng \<Rightarrow> error + (string \<times> rng)" where
  "generate_memorable words separator capitalize add_number g =
     on_ok (choices (nat words) word_list g) (\<lambda>(selected, g').
       (let selected = (if capitalize then map str_capitalize selected else selected);
            passphrase = join separator selected
        in if add_number then
             on_ok (randbelow 100 g') (\<lambda>(n, g''). Inr (passphrase @ str_of_nat n, g''))
           else Inr (passphrase, g')))"

subsection \<open>check_strength\<close>

text \<open>
  \<open>str.isupper\<close>, \<open>str.islower\<close> and \<open>str.isdigit\<close> on one character, by its code
  point: the ASCII letters and digits, and in the range 128 to 255 the characters
  with Unicode's properties Uppercase, Lowercase and Numeric_Type Digit.
\<close>

definition isupper :: "char \<Rightarrow> bool" where
  "isupper c = (let n = (of_char c :: nat) in
     (65 \<le> n \<and> n \<le> 90) \<or> (192 \<le> n \<and> n \<le> 222 \<and> n \<noteq> 215))"

definition islower :: "char \<Rightarrow> bool" where
  "islower c = (let n = (of_char c :: nat) in
     (97 \<le> n \<and> n \<le> 122) \<or> n = 170 \<or> n = 181 \<or> n = 186
       \<or> (223 \<le> n \<and> n \<le> 255 \<and> n \<noteq> 247))"

definition isdigit :: "char \<Rightarrow> bool" where
  "isdigit c = (let n = (of_char c :: nat) in
     (48 \<le> n \<and> n \<le> 57) \<or> n = 178 \<or> n = 179 \<or> n = 185)"

text \<open>
  \<open>check_strength\<close> returns the pair of the score and the feedback list. The
  seven \<open>if\<close> statements run in the source's order, each on the pair so far.
\<close>

definition check_strength :: "string \<Rightarrow> int \<times> string list" where
  "check_strength password =
     (let (score, feedback) = (0, []);
          (score, feedback) =
            (if length password \<ge> 8 then (score + 1, feedback)
             else (score, feedback @ [''Too short (min 8)'']));
          score = (if length password \<ge> 12 then score + 1 else score);
          score = (if length password \<ge> 16 then score + 1 else score);
          (score, feedback) =
            (if list_ex isupper password then (score + 1, feedback)
             else (score, feedback @ [''Add uppercase letters'']));
          (score, feedback) =
            (if list_ex islower password then (score + 1, feedback)
             else (score, feedback @ [''Add lowercase letters'']));
          (score, feedback) =
            (if list_ex isdigit password then (score + 1, feedback)
             else (score, feedback @ [''Add numbers'']));
          (score, feedback) =
            (if list_ex (\<lambda>c. c \<in> set punctuation) password then (score + 1, feedback)
             else (score, feedback @ [''Add symbols'']))
      in (min score 5, feedback))"

subsection \<open>The notions the properties are stated with\<close>

text \<open>
  The four character categories, the canonical set of each, and the effective
  set of a category: its canonical set, without the ambiguous characters when
  these are excluded.
\<close>

datatype category = Uppercase | Lowercase | Digit | Symbol

fun base_set :: "category \<Rightarrow> string" where
  "base_set Uppercase = uppercase"
| "base_set Lowercase = lowercase"
| "base_set Digit = digits"
| "base_set Symbol = symbols"

definition effective_set :: "category \<Rightarrow> bool \<Rightarrow> string" where
  "effective_set cat exclude_ambiguous =
     (if exclude_ambiguous then unambiguous (base_set cat) else base_set cat)"

text \<open>The categories that the four flags of \<open>generate\<close> enable, and their number.\<close>

definition enabled :: "bool \<Rightarrow> bool \<Rightarrow> bool \<Rightarrow> bool \<Rightarrow> category list" where
  "enabled use_upper use_lower use_digits use_symbols =
     (if use_upper then [Uppercase] else []) @ (if use_lower then [Lowercase] else [])
       @ (if use_digits then [Digit] else []) @ (if use_symbols then [Symbol] else [])"

definition enabled_count :: "bool \<Rightarrow> bool \<Rightarrow> bool \<Rightarrow> bool \<Rightarrow> nat" where
  "enabled_count use_upper use_lower use_digits use_symbols =
     length (enabled use_upper use_lower use_digits use_symbols)"

text \<open>
  The raw sum of the scorer: the number of the seven tests that the password
  passes.
\<close>

definition strength_tests :: "string \<Rightarrow> bool list" where
  "strength_tests password =
     [length password \<ge> 8, length password \<ge> 12, length password \<ge> 16,
      \<exists>c \<in> set password. isupper c, \<exists>c \<in> set password. islower c,
      \<exists>c \<in> set password. isdigit c, \<exists>c \<in> set password. c \<in> set punctuation]"

definition raw_sum :: "string \<Rightarrow> int" where
  "raw_sum password = int (length (filter (\<lambda>b. b) (strength_tests password)))"

subsection \<open>Notions used in the proofs\<close>

text \<open>The element that \<open>choice\<close> returns from a sequence that is not empty.\<close>

definition pick :: "'a list \<Rightarrow> rng \<Rightarrow> 'a" where
  "pick seq g = seq ! (g 0 mod length seq)"

text \<open>
  The value of \<open>chars\<close> after the four blocks: the effective sets of the enabled
  categories, one after the other.
\<close>

definition alphabet :: "bool \<Rightarrow> bool \<Rightarrow> bool \<Rightarrow> bool \<Rightarrow> bool \<Rightarrow> string" where
  "alphabet uu ul ud us ex = concat (map (\<lambda>cat. effective_set cat ex) (enabled uu ul ud us))"

text \<open>
  \<open>required\<close> holds one character per enabled category, in the order of the
  categories, each from the effective set of its category.
\<close>

definition one_of_each :: "bool \<Rightarrow> string \<Rightarrow> category list \<Rightarrow> bool" where
  "one_of_each ex required cats = list_all2 (\<lambda>c cat. c \<in> set (effective_set cat ex)) required cats"

text \<open>The four blocks of \<open>generate\<close> in sequence, from empty \<open>chars\<close> and \<open>required\<close>.\<close>

definition build :: "bool \<Rightarrow> bool \<Rightarrow> bool \<Rightarrow> bool \<Rightarrow> bool \<Rightarrow> rng \<Rightarrow> error + gen_state" where
  "build uu ul ud us ex g =
     on_ok (upper_block uu ex ([], [], g)) (\<lambda>st.
     on_ok (lower_block ul ex st) (\<lambda>st.
     on_ok (digits_block ud ex st) (\<lambda>st.
     symbols_block us st)))"

section \<open>Properties\<close>

subsection \<open>Auxiliary facts\<close>

lemma on_ok_Inr: "on_ok (Inr x) f = f x"
  by (simp add: on_ok_def)

lemma on_ok_Inl: "on_ok (Inl e) f = Inl e"
  by (simp add: on_ok_def)

lemma score_eq: "fst (check_strength password) = min (raw_sum password) 5"
  by (simp add: check_strength_def raw_sum_def strength_tests_def list_ex_iff)

text \<open>The random source: \<open>choice\<close>, \<open>choices\<close> and \<open>shuffle\<close>.\<close>

lemma choice_nonempty: "seq \<noteq> [] \<Longrightarrow> choice seq g = Inr (pick seq g, advance g)"
  by (simp add: choice_def randbelow_pos_def pick_def)

lemma pick_mem: "seq \<noteq> [] \<Longrightarrow> pick seq g \<in> set seq"
  by (simp add: pick_def)

lemma choices_nonempty:
  "seq \<noteq> [] \<Longrightarrow> \<exists>xs g'. choices n seq g = Inr (xs, g') \<and> length xs = n \<and> set xs \<subseteq> set seq"
proof (induction n arbitrary: g)
  case 0
  then show ?case by simp
next
  case (Suc n)
  from Suc.IH [OF Suc.prems, of "advance g"] obtain xs g'
    where "choices n seq (advance g) = Inr (xs, g')" "length xs = n" "set xs \<subseteq> set seq"
    by blast
  with Suc.prems show ?case
    by (simp add: choice_nonempty on_ok_Inr pick_mem)
qed

lemma mset_shuffle_from:
  "i < length x \<or> i = 0 \<Longrightarrow> mset (fst (shuffle_from i x g)) = mset x"
proof (induction i arbitrary: x g)
  case 0
  then show ?case by simp
next
  case (Suc i)
  then have i: "Suc i < length x" by simp
  have "g 0 mod (Suc i + 1) < Suc i + 1" by simp
  with i have j: "g 0 mod (Suc i + 1) < length x" by linarith
  let ?x' = "x[Suc i := x ! (g 0 mod (Suc i + 1)), g 0 mod (Suc i + 1) := x ! Suc i]"
  have "mset ?x' = mset x" using mset_swap [OF j i] by simp
  moreover have "i < length ?x' \<or> i = 0" using i by simp
  ultimately show ?case using Suc.IH [of ?x' "advance g"]
    by (simp add: randbelow_pos_def)
qed

lemma mset_shuffle: "mset (fst (shuffle x g)) = mset x"
  by (cases x) (simp_all add: shuffle_def mset_shuffle_from)

lemma unambiguous_symbols: "unambiguous symbols = symbols"
  by (simp add: unambiguous_def symbols_def punctuation_def ambiguous_def)

lemma unambiguous_disjoint: "set (unambiguous s) \<inter> set ambiguous = {}"
  by (auto simp: unambiguous_def)

lemma effective_set_nonempty: "effective_set cat ex \<noteq> []"
  by (cases cat; cases ex)
    (simp_all add: effective_set_def unambiguous_def ambiguous_def uppercase_def
      lowercase_def digits_def symbols_def punctuation_def)

lemma effective_set_Symbol: "effective_set Symbol ex = symbols"
  by (simp add: effective_set_def unambiguous_symbols)

lemma effective_set_unambiguous: "set (effective_set cat True) \<inter> set ambiguous = {}"
  by (simp add: effective_set_def unambiguous_disjoint)

lemma base_nonempty:
  "uppercase \<noteq> []" "lowercase \<noteq> []" "digits \<noteq> []" "symbols \<noteq> []"
  "unambiguous uppercase \<noteq> []" "unambiguous lowercase \<noteq> []" "unambiguous digits \<noteq> []"
  using effective_set_nonempty [of Uppercase False] effective_set_nonempty [of Lowercase False]
    effective_set_nonempty [of Digit False] effective_set_nonempty [of Symbol False]
    effective_set_nonempty [of Uppercase True] effective_set_nonempty [of Lowercase True]
    effective_set_nonempty [of Digit True]
  by (simp_all add: effective_set_def)

lemma upper_block_eq:
  "upper_block uu ex ([], req, g) =
     (if uu then Inr (effective_set Uppercase ex,
                      req @ [pick (effective_set Uppercase ex) g], advance g)
      else Inr ([], req, g))"
  by (simp add: upper_block_def effective_set_def choice_nonempty on_ok_Inr base_nonempty)

lemma lower_block_eq:
  "lower_block ul ex (chars, req, g) =
     (if ul then Inr (chars @ effective_set Lowercase ex,
                      req @ [pick (effective_set Lowercase ex) g], advance g)
      else Inr (chars, req, g))"
  by (simp add: lower_block_def effective_set_def choice_nonempty on_ok_Inr base_nonempty Let_def)

lemma digits_block_eq:
  "digits_block ud ex (chars, req, g) =
     (if ud then Inr (chars @ effective_set Digit ex,
                      req @ [pick (effective_set Digit ex) g], advance g)
      else Inr (chars, req, g))"
  by (simp add: digits_block_def effective_set_def choice_nonempty on_ok_Inr base_nonempty Let_def)

lemma symbols_block_eq:
  "symbols_block us (chars, req, g) =
     (if us then Inr (chars @ effective_set Symbol ex,
                      req @ [pick (effective_set Symbol ex) g], advance g)
      else Inr (chars, req, g))"
  by (simp add: symbols_block_def effective_set_Symbol choice_nonempty on_ok_Inr base_nonempty)

lemma on_ok_assoc: "on_ok (on_ok m f) k = on_ok m (\<lambda>x. on_ok (f x) k)"
  by (simp add: on_ok_def split: sum.splits)

lemma generate_build:
  "generate len uu ul ud us ex g = on_ok (build uu ul ud us ex g) (fill_and_shuffle len)"
  by (simp add: generate_def build_def on_ok_assoc)

lemma build_result:
  "\<exists>required g1.
     build uu ul ud us ex g = Inr (alphabet uu ul ud us ex, required, g1)
     \<and> one_of_each ex required (enabled uu ul ud us)"
  by (cases uu; cases ul; cases ud; cases us)
    (simp_all add: build_def upper_block_eq lower_block_eq digits_block_eq
      symbols_block_eq [where ex = ex]
      on_ok_Inr alphabet_def enabled_def one_of_each_def pick_mem effective_set_nonempty)

lemma alphabet_nonempty: "uu \<or> ul \<or> ud \<or> us \<Longrightarrow> alphabet uu ul ud us ex \<noteq> []"
  by (auto simp: alphabet_def enabled_def effective_set_nonempty)

lemma alphabet_unambiguous: "set (alphabet uu ul ud us True) \<inter> set ambiguous = {}"
  using effective_set_unambiguous by (auto simp: alphabet_def)

lemma one_of_each_subset:
  "one_of_each ex required (enabled uu ul ud us) \<Longrightarrow> set required \<subseteq> set (alphabet uu ul ud us ex)"
  by (auto simp: one_of_each_def alphabet_def list_all2_conv_all_nth in_set_conv_nth)
    (metis nth_mem)

lemma one_of_each_length: "one_of_each ex required cats \<Longrightarrow> length required = length cats"
  by (simp add: one_of_each_def list_all2_lengthD)

lemma one_of_each_covers:
  assumes "one_of_each ex required cats" and "cat \<in> set cats"
  shows "\<exists>c \<in> set required. c \<in> set (effective_set cat ex)"
proof -
  from assms(2) obtain i where i: "i < length cats" "cats ! i = cat"
    by (auto simp: in_set_conv_nth)
  have l: "length required = length cats"
    using assms(1) by (simp add: one_of_each_def list_all2_lengthD)
  have "required ! i \<in> set (effective_set (cats ! i) ex)"
    using assms(1) i(1) by (simp add: one_of_each_def list_all2_conv_all_nth)
  moreover have "required ! i \<in> set required"
    using i(1) l by simp
  ultimately show ?thesis using i(2) by blast
qed

lemma fill_and_shuffle_result:
  assumes "chars \<noteq> []"
  shows "\<exists>filler pw g'.
     fill_and_shuffle len (chars, required, g) = Inr (pw, g')
     \<and> mset pw = mset required + mset filler
     \<and> set filler \<subseteq> set chars
     \<and> int (length filler) = max len (int (length required)) - int (length required)"
proof -
  let ?n = "nat ((if len < int (length required) then int (length required) else len)
              - int (length required))"
  from choices_nonempty [OF assms, of ?n g] obtain filler g1
    where c: "choices ?n chars g = Inr (filler, g1)" "length filler = ?n" "set filler \<subseteq> set chars"
    by blast
  obtain pw g' where s: "shuffle (required @ filler) g1 = (pw, g')"
    by (cases "shuffle (required @ filler) g1")
  have "mset pw = mset (required @ filler)"
    using mset_shuffle [of "required @ filler" g1] s by simp
  moreover have "fill_and_shuffle len (chars, required, g) = Inr (pw, g')"
    using assms c(1) s by (simp add: fill_and_shuffle_def on_ok_Inr Let_def)
  moreover have "int (length filler) = max len (int (length required)) - int (length required)"
    using c(2) by (simp add: max_def)
  ultimately show ?thesis using c(3) by auto
qed

lemma generate_shape:
  assumes "uu \<or> ul \<or> ud \<or> us"
  shows "\<exists>pw g' required filler.
     generate len uu ul ud us ex g = Inr (pw, g')
     \<and> mset pw = mset required + mset filler
     \<and> one_of_each ex required (enabled uu ul ud us)
     \<and> set filler \<subseteq> set (alphabet uu ul ud us ex)
     \<and> int (length filler) = max len (int (enabled_count uu ul ud us)) - int (enabled_count uu ul ud us)"
proof -
  from build_result [of uu ul ud us ex g] obtain required g1
    where b: "build uu ul ud us ex g = Inr (alphabet uu ul ud us ex, required, g1)"
      and r: "one_of_each ex required (enabled uu ul ud us)"
    by blast
  have n: "length required = enabled_count uu ul ud us"
    using one_of_each_length [OF r] by (simp add: enabled_count_def)
  from fill_and_shuffle_result [of "alphabet uu ul ud us ex" len required g1,
      OF alphabet_nonempty [OF assms]]
  obtain filler pw g'
    where f: "fill_and_shuffle len (alphabet uu ul ud us ex, required, g1) = Inr (pw, g')"
      "mset pw = mset required + mset filler"
      "set filler \<subseteq> set (alphabet uu ul ud us ex)"
      "int (length filler) = max len (int (length required)) - int (length required)"
    by blast
  have "generate len uu ul ud us ex g = Inr (pw, g')"
    using b f(1) by (simp add: generate_build on_ok_Inr)
  with f(2,3,4) r n show ?thesis by auto
qed

lemma generate_invariants:
  assumes "uu \<or> ul \<or> ud \<or> us"
  shows "\<exists>pw g'.
     generate len uu ul ud us ex g = Inr (pw, g')
     \<and> int (length pw) = max len (int (enabled_count uu ul ud us))
     \<and> (\<forall>cat \<in> set (enabled uu ul ud us). \<exists>c \<in> set pw. c \<in> set (effective_set cat ex))
     \<and> set pw \<subseteq> set (alphabet uu ul ud us ex)"
proof -
  from generate_shape [OF assms, of len ex g] obtain pw g' required filler
    where gen: "generate len uu ul ud us ex g = Inr (pw, g')"
      and perm: "mset pw = mset required + mset filler"
      and req: "one_of_each ex required (enabled uu ul ud us)"
      and fill: "set filler \<subseteq> set (alphabet uu ul ud us ex)"
      and len: "int (length filler) =
        max len (int (enabled_count uu ul ud us)) - int (enabled_count uu ul ud us)"
    by blast
  have "size (mset pw) = size (mset required + mset filler)"
    using perm by simp
  then have "length pw = length required + length filler"
    by simp
  moreover have "length required = enabled_count uu ul ud us"
    using one_of_each_length [OF req] by (simp add: enabled_count_def)
  ultimately have l: "int (length pw) = max len (int (enabled_count uu ul ud us))"
    using len by simp
  have "set_mset (mset pw) = set_mset (mset required + mset filler)"
    using perm by simp
  then have s: "set pw = set required \<union> set filler"
    by simp
  have c: "\<forall>cat \<in> set (enabled uu ul ud us). \<exists>c \<in> set pw. c \<in> set (effective_set cat ex)"
    using one_of_each_covers [OF req] s by blast
  have "set pw \<subseteq> set (alphabet uu ul ud us ex)"
    using s fill one_of_each_subset [OF req] by simp
  with gen l c show ?thesis by blast
qed

lemma generate_times_invariants:
  assumes "uu \<or> ul \<or> ud \<or> us"
  shows "\<exists>pws g'.
     generate_times n len uu ul ud us ex g = Inr (pws, g')
     \<and> length pws = n
     \<and> (\<forall>pw \<in> set pws.
           int (length pw) = max len (int (enabled_count uu ul ud us))
           \<and> (\<forall>cat \<in> set (enabled uu ul ud us). \<exists>c \<in> set pw. c \<in> set (effective_set cat ex)))"
proof (induction n arbitrary: g)
  case 0
  show ?case by simp
next
  case (Suc n)
  from generate_invariants [OF assms, of len ex g] obtain pw g1
    where gen: "generate len uu ul ud us ex g = Inr (pw, g1)"
      and inv: "int (length pw) = max len (int (enabled_count uu ul ud us))"
        "\<forall>cat \<in> set (enabled uu ul ud us). \<exists>c \<in> set pw. c \<in> set (effective_set cat ex)"
    by blast
  from Suc.IH [of g1] obtain pws g'
    where rest: "generate_times n len uu ul ud us ex g1 = Inr (pws, g')" "length pws = n"
      and invs: "\<forall>pw \<in> set pws.
           int (length pw) = max len (int (enabled_count uu ul ud us))
           \<and> (\<forall>cat \<in> set (enabled uu ul ud us). \<exists>c \<in> set pw. c \<in> set (effective_set cat ex))"
    by blast
  have "generate_times (Suc n) len uu ul ud us ex g = Inr (pw # pws, g')"
    using gen rest(1) by (simp add: on_ok_Inr)
  moreover have "length (pw # pws) = Suc n"
    using rest(2) by simp
  moreover have "\<forall>p \<in> set (pw # pws).
           int (length p) = max len (int (enabled_count uu ul ud us))
           \<and> (\<forall>cat \<in> set (enabled uu ul ud us). \<exists>c \<in> set p. c \<in> set (effective_set cat ex))"
    using inv invs by simp
  ultimately show ?case by blast
qed

text \<open>The passphrase: the words drawn, their capitalisation, the decimal suffix.\<close>

lemma choices_exact:
  "seq \<noteq> [] \<Longrightarrow>
     choices n seq g = Inr (map (\<lambda>i. seq ! (g i mod length seq)) [0..<n], (\<lambda>i. g (i + n)))"
proof (induction n arbitrary: g)
  case 0
  show ?case by simp
next
  case (Suc n)
  have "choices n seq (advance g)
      = Inr (map (\<lambda>i. seq ! (g (Suc i) mod length seq)) [0..<n], (\<lambda>i. g (i + Suc n)))"
    using Suc.IH [OF Suc.prems, of "advance g"] by (simp add: advance_def)
  with Suc.prems show ?case
    by (simp add: choice_nonempty pick_def on_ok_Inr map_upt_Suc del: upt_Suc)
qed

lemma word_list_nonempty: "word_list \<noteq> []"
  by (simp add: word_list_def)

lemma capitalize_word:
  "w \<in> set word_list \<Longrightarrow>
     w \<noteq> [] \<and> str_capitalize w = ascii_upper (hd w) # tl w \<and> isupper (ascii_upper (hd w))
       \<and> list_all islower w"
  by (auto simp: word_list_def str_capitalize_def ascii_upper_def ascii_lower_def isupper_def islower_def)

lemma str_of_nat_below_100:
  assumes "n < 100"
  shows "str_of_nat n =
    (if n < 10 then [digit_char n] else [digit_char (n div 10), digit_char (n mod 10)])"
proof -
  from assms have "n div 10 < 10" by simp
  then show ?thesis
    by (simp add: str_of_nat.simps [of n] str_of_nat.simps [of "n div 10"])
qed

lemma digit_char_digits:
  assumes "d < 10"
  shows "digit_char d \<in> set digits"
proof -
  have "length digits = 10"
    by (simp add: digits_def)
  with assms have "digits ! d \<in> set digits"
    by (intro nth_mem) simp
  then show ?thesis
    by (simp add: digit_char_def digits_def)
qed

lemma str_of_nat_digits: "n < 100 \<Longrightarrow> set (str_of_nat n) \<subseteq> set digits"
  by (simp add: str_of_nat_below_100 digit_char_digits)

lemma generate_memorable_eq:
  "generate_memorable words separator capitalize add_number g =
     Inr (join separator
            ((if capitalize then map str_capitalize else (\<lambda>ws. ws))
               (map (\<lambda>i. word_list ! (g i mod length word_list)) [0..<nat words]))
          @ (if add_number then str_of_nat (g (nat words) mod 100) else []),
          (\<lambda>i. g (i + nat words + (if add_number then 1 else 0))))"
  by (simp add: generate_memorable_def choices_exact [OF word_list_nonempty] on_ok_Inr
      randbelow_def randbelow_pos_def advance_def Let_def)

subsection \<open>generate without a category\<close>

text \<open>
  C4: with all four categories disabled, \<open>generate\<close> raises its \<open>ValueError\<close>
  (the configuration error), whatever the length, the ambiguity setting and the
  random source are. The error is the result of the call itself: nothing in
  \<open>generate\<close> catches it.
\<close>

theorem generate_no_category:
  "generate len False False False False exclude_ambiguous g =
     Inl (ValueError ''At least one character type must be selected'')"
  by (simp add: generate_def upper_block_def lower_block_def digits_block_def
      symbols_block_def fill_and_shuffle_def on_ok_Inr)

subsection \<open>The strength score\<close>

text \<open>
  C5: \<open>check_strength\<close> is a function of the password alone, with no error
  result and no use of the random source: it returns for every string, the
  empty one included, and equal strings get equal reports. Its score is the
  raw sum of the seven tests capped at 5, so it lies between 0 and 5, while the
  raw sum can be as large as 7.
\<close>

theorem check_strength_score:
  "fst (check_strength password) = min (raw_sum password) 5
     \<and> 0 \<le> fst (check_strength password) \<and> fst (check_strength password) \<le> 5
     \<and> raw_sum password \<le> 7"
proof -
  have "0 \<le> raw_sum password"
    by (simp add: raw_sum_def)
  moreover have "raw_sum password \<le> 7"
  proof -
    have "length (filter (\<lambda>b. b) (strength_tests password)) \<le> length (strength_tests password)"
      by (rule length_filter_le)
    then show ?thesis
      by (simp add: raw_sum_def strength_tests_def)
  qed
  ultimately show ?thesis
    using score_eq [of password] by simp
qed

text \<open>
  C6, as the specification words it: the suggestions for \<open>abcdefgh\<close> include the
  texts "add uppercase letters", "add digits" and "add symbols". None of the
  three is in the feedback list that \<open>check_strength\<close> returns.
\<close>

theorem check_strength_abcdefgh_spec_texts_absent:
  "''add uppercase letters'' \<notin> set (snd (check_strength ''abcdefgh''))
     \<and> ''add digits'' \<notin> set (snd (check_strength ''abcdefgh''))
     \<and> ''add symbols'' \<notin> set (snd (check_strength ''abcdefgh''))"
  by (simp add: check_strength_def isupper_def islower_def isdigit_def punctuation_def)

text \<open>
  C6, amended: \<open>check_strength\<close> of \<open>abcdefgh\<close> has score 2 (length at least 8,
  and a lowercase letter), and its feedback includes "Add uppercase letters",
  "Add numbers" and "Add symbols"; these three are the whole list.
\<close>

theorem check_strength_abcdefgh:
  "fst (check_strength ''abcdefgh'') = 2
     \<and> ''Add uppercase letters'' \<in> set (snd (check_strength ''abcdefgh''))
     \<and> ''Add numbers'' \<in> set (snd (check_strength ''abcdefgh''))
     \<and> ''Add symbols'' \<in> set (snd (check_strength ''abcdefgh''))
     \<and> length (snd (check_strength ''abcdefgh'')) = 3"
  by (simp add: check_strength_def isupper_def islower_def isdigit_def punctuation_def)

text \<open>
  C7: \<open>check_strength\<close> of \<open>Ab3!xyz9QQ22\<close>, a string of length 12 with an uppercase
  letter, a lowercase letter, a digit and a symbol, has score 5.
\<close>

theorem check_strength_all_classes:
  "length ''Ab3!xyz9QQ22'' = 12 \<and> fst (check_strength ''Ab3!xyz9QQ22'') = 5"
  by (simp add: check_strength_def isupper_def islower_def isdigit_def punctuation_def)

subsection \<open>The passwords of generate\<close>

text \<open>
  C1: for every configuration that enables at least one category, \<open>generate\<close>
  returns a password, and its length is the maximum of the requested length and
  the number of enabled categories.
\<close>

theorem generate_length:
  assumes "use_upper \<or> use_lower \<or> use_digits \<or> use_symbols"
  shows "\<exists>pw g'.
     generate len use_upper use_lower use_digits use_symbols exclude_ambiguous g = Inr (pw, g')
     \<and> int (length pw) = max len (int (enabled_count use_upper use_lower use_digits use_symbols))"
  using generate_invariants [OF assms, of len exclude_ambiguous g] by blast

theorem generate_length_witness:
  "(True \<or> True \<or> True \<or> True)
     \<and> (\<exists>pw g'. generate 2 True True True True True (\<lambda>i. 7 * i + 3) = Inr (pw, g')
           \<and> int (length pw) = 4)"
  using generate_length [of True True True True 2 True "\<lambda>i. 7 * i + 3"]
  by (simp add: enabled_count_def enabled_def)

text \<open>
  C2: for every configuration that enables at least one category, the password
  that \<open>generate\<close> returns contains, for each enabled category, a character of the
  effective set of that category (its canonical set, without the ambiguous
  characters when they are excluded), whatever the requested length is.
\<close>

theorem generate_one_per_category:
  assumes "use_upper \<or> use_lower \<or> use_digits \<or> use_symbols"
  shows "\<exists>pw g'.
     generate len use_upper use_lower use_digits use_symbols exclude_ambiguous g = Inr (pw, g')
     \<and> (\<forall>cat \<in> set (enabled use_upper use_lower use_digits use_symbols).
           \<exists>c \<in> set pw. c \<in> set (effective_set cat exclude_ambiguous))"
  using generate_invariants [OF assms, of len exclude_ambiguous g] by blast

theorem generate_one_per_category_witness:
  "(True \<or> False \<or> True \<or> False)
     \<and> (\<exists>pw g'. generate 1 True False True False True (\<lambda>i. 7 * i + 3) = Inr (pw, g')
           \<and> (\<exists>c \<in> set pw. c \<in> set (effective_set Uppercase True))
           \<and> (\<exists>c \<in> set pw. c \<in> set (effective_set Digit True)))"
  using generate_one_per_category [of True False True False 1 True "\<lambda>i. 7 * i + 3"]
  by (simp add: enabled_def)

text \<open>
  C3: for every configuration that enables at least one category and excludes
  the ambiguous characters, no character of the password that \<open>generate\<close> returns
  is one of i, l, 1, L, o, 0, O; this covers the characters drawn for the symbol
  category and the filler draws as well.
\<close>

theorem generate_excludes_ambiguous:
  assumes "use_upper \<or> use_lower \<or> use_digits \<or> use_symbols"
  shows "\<exists>pw g'.
     generate len use_upper use_lower use_digits use_symbols True g = Inr (pw, g')
     \<and> set pw \<inter> {CHR ''i'', CHR ''l'', CHR ''1'', CHR ''L'', CHR ''o'', CHR ''0'', CHR ''O''} = {}"
proof -
  from generate_invariants [OF assms, of len True g] obtain pw g'
    where gen: "generate len use_upper use_lower use_digits use_symbols True g = Inr (pw, g')"
      and sub: "set pw \<subseteq> set (alphabet use_upper use_lower use_digits use_symbols True)"
    by blast
  have "set pw \<inter> set ambiguous = {}"
    using sub alphabet_unambiguous [of use_upper use_lower use_digits use_symbols] by blast
  moreover have "set ambiguous =
      {CHR ''i'', CHR ''l'', CHR ''1'', CHR ''L'', CHR ''o'', CHR ''0'', CHR ''O''}"
    by (simp add: ambiguous_def)
  ultimately show ?thesis using gen by auto
qed

theorem generate_excludes_ambiguous_witness:
  "(False \<or> True \<or> True \<or> True)
     \<and> (\<exists>pw g'. generate 20 False True True True True (\<lambda>i. 11 * i + 8) = Inr (pw, g')
           \<and> set pw \<inter> {CHR ''i'', CHR ''l'', CHR ''1'', CHR ''L'', CHR ''o'', CHR ''0'', CHR ''O''} = {})"
  using generate_excludes_ambiguous [of False True True True 20 "\<lambda>i. 11 * i + 8"]
  by simp

text \<open>
  C10: for every configuration that enables at least one category, \<open>generate\<close>
  with a requested length that is zero or negative does not raise: it returns a
  password whose length is the number of enabled categories.
\<close>

theorem generate_nonpositive_length:
  assumes "len \<le> 0" and "use_upper \<or> use_lower \<or> use_digits \<or> use_symbols"
  shows "\<exists>pw g'.
     generate len use_upper use_lower use_digits use_symbols exclude_ambiguous g = Inr (pw, g')
     \<and> length pw = enabled_count use_upper use_lower use_digits use_symbols"
proof -
  from generate_invariants [OF assms(2), of len exclude_ambiguous g] obtain pw g'
    where gen: "generate len use_upper use_lower use_digits use_symbols exclude_ambiguous g
        = Inr (pw, g')"
      and l: "int (length pw) = max len (int (enabled_count use_upper use_lower use_digits use_symbols))"
    by blast
  from l assms(1) have "length pw = enabled_count use_upper use_lower use_digits use_symbols"
    by (simp add: max_def)
  with gen show ?thesis by blast
qed

theorem generate_nonpositive_length_witness:
  "(-5 :: int) \<le> 0 \<and> (True \<or> False \<or> True \<or> False)
     \<and> (\<exists>pw g'. generate (-5) True False True False False (\<lambda>i. 3 * i) = Inr (pw, g')
           \<and> length pw = 2)"
  using generate_nonpositive_length [of "-5" True False True False False "\<lambda>i. 3 * i"]
  by (simp add: enabled_count_def enabled_def numeral_2_eq_2)

subsection \<open>generate_multiple\<close>

text \<open>
  C9: for every count \<open>n\<close> that is not negative and every configuration that
  enables at least one category, \<open>generate_multiple\<close> returns exactly \<open>n\<close>
  passwords, and each of them has the length of C1 and contains a character of
  every enabled category's effective set.
\<close>

theorem generate_multiple_invariants:
  assumes "0 \<le> n" and "use_upper \<or> use_lower \<or> use_digits \<or> use_symbols"
  shows "\<exists>pws g'.
     generate_multiple n len use_upper use_lower use_digits use_symbols exclude_ambiguous g
       = Inr (pws, g')
     \<and> int (length pws) = n
     \<and> (\<forall>pw \<in> set pws.
           int (length pw) = max len (int (enabled_count use_upper use_lower use_digits use_symbols))
           \<and> (\<forall>cat \<in> set (enabled use_upper use_lower use_digits use_symbols).
                 \<exists>c \<in> set pw. c \<in> set (effective_set cat exclude_ambiguous)))"
proof -
  from generate_times_invariants [OF assms(2), of "nat n" len exclude_ambiguous g]
  obtain pws g'
    where "generate_times (nat n) len use_upper use_lower use_digits use_symbols exclude_ambiguous g
        = Inr (pws, g')" "length pws = nat n"
      "\<forall>pw \<in> set pws.
           int (length pw) = max len (int (enabled_count use_upper use_lower use_digits use_symbols))
           \<and> (\<forall>cat \<in> set (enabled use_upper use_lower use_digits use_symbols).
                 \<exists>c \<in> set pw. c \<in> set (effective_set cat exclude_ambiguous))"
    by blast
  with assms(1) show ?thesis
    by (auto simp: generate_multiple_def)
qed

theorem generate_multiple_invariants_witness:
  "(0 :: int) \<le> 3 \<and> (True \<or> True \<or> False \<or> False)
     \<and> (\<exists>pws g'. generate_multiple 3 5 True True False False True (\<lambda>i. 113 * i + 5) = Inr (pws, g')
           \<and> int (length pws) = 3
           \<and> list_all (\<lambda>pw. int (length pw) = 5
                 \<and> (\<exists>c \<in> set pw. c \<in> set (effective_set Uppercase True))
                 \<and> (\<exists>c \<in> set pw. c \<in> set (effective_set Lowercase True))) pws)"
  using generate_multiple_invariants [of 3 True True False False 5 True "\<lambda>i. 113 * i + 5"]
  by (simp add: enabled_count_def enabled_def list_all_iff)

subsection \<open>generate_memorable\<close>

text \<open>
  C8: \<open>generate_memorable(4, "-", True, True)\<close> returns four words of the fixed
  word list, each with its first letter in upper case and the rest unchanged,
  joined by "-" and followed by the decimal digits of a number below 100. In
  general \<open>generate_memorable\<close> returns, for every argument and every random
  source, the selected words (capitalised if asked) joined by the separator,
  followed by the number if asked. There are as many words as \<open>words\<close> says (none
  for a negative \<open>words\<close>); word \<open>i\<close> is the entry of the word list at the index
  given by draw \<open>i\<close> of the random source, so the draws are independent, a word can
  repeat, and each word is as uniform as the draw is. The number is the next draw,
  below 100.
\<close>

theorem generate_memorable_shape:
  "(\<exists>w1 w2 w3 w4 n g'.
      generate_memorable 4 ''-'' True True g =
        Inr (str_capitalize w1 @ ''-'' @ str_capitalize w2 @ ''-'' @ str_capitalize w3 @ ''-''
               @ str_capitalize w4 @ str_of_nat n, g')
      \<and> set [w1, w2, w3, w4] \<subseteq> set word_list
      \<and> list_all (\<lambda>w. str_capitalize w = ascii_upper (hd w) # tl w \<and> isupper (ascii_upper (hd w)))
           [w1, w2, w3, w4]
      \<and> n < 100 \<and> set (str_of_nat n) \<subseteq> set digits)
   \<and> (\<exists>ws n g'.
      generate_memorable words separator capitalize add_number g =
        Inr (join separator (if capitalize then map str_capitalize ws else ws)
               @ (if add_number then str_of_nat n else []), g')
      \<and> ws = map (\<lambda>i. word_list ! (g i mod length word_list)) [0..<nat words]
      \<and> length ws = nat words \<and> set ws \<subseteq> set word_list
      \<and> n = g (nat words) mod 100 \<and> n < 100)"
proof
  let ?w = "\<lambda>i. word_list ! (g i mod length word_list)"
  have mem: "?w i \<in> set word_list" for i
    by (simp add: word_list_nonempty)
  have four: "map ?w [0..<nat 4] = [?w 0, ?w 1, ?w 2, ?w 3]"
    by (simp add: upt_conv_Cons numeral_2_eq_2 numeral_3_eq_3)
  have "generate_memorable 4 ''-'' True True g =
      Inr (str_capitalize (?w 0) @ ''-'' @ str_capitalize (?w 1) @ ''-'' @ str_capitalize (?w 2)
             @ ''-'' @ str_capitalize (?w 3) @ str_of_nat (g (nat 4) mod 100),
           (\<lambda>i. g (i + nat 4 + 1)))"
    unfolding generate_memorable_eq four by simp
  moreover have "set [?w 0, ?w 1, ?w 2, ?w 3] \<subseteq> set word_list"
    using mem by simp
  moreover have "list_all (\<lambda>w. str_capitalize w = ascii_upper (hd w) # tl w
      \<and> isupper (ascii_upper (hd w))) [?w 0, ?w 1, ?w 2, ?w 3]"
    using capitalize_word [OF mem] by simp
  moreover have "g (nat 4) mod 100 < 100"
    by simp
  moreover have "set (str_of_nat (g (nat 4) mod 100)) \<subseteq> set digits"
    by (rule str_of_nat_digits) simp
  ultimately show "\<exists>w1 w2 w3 w4 n g'.
      generate_memorable 4 ''-'' True True g =
        Inr (str_capitalize w1 @ ''-'' @ str_capitalize w2 @ ''-'' @ str_capitalize w3 @ ''-''
               @ str_capitalize w4 @ str_of_nat n, g')
      \<and> set [w1, w2, w3, w4] \<subseteq> set word_list
      \<and> list_all (\<lambda>w. str_capitalize w = ascii_upper (hd w) # tl w \<and> isupper (ascii_upper (hd w)))
           [w1, w2, w3, w4]
      \<and> n < 100 \<and> set (str_of_nat n) \<subseteq> set digits"
    by blast
next
  let ?ws = "map (\<lambda>i. word_list ! (g i mod length word_list)) [0..<nat words]"
  have "generate_memorable words separator capitalize add_number g =
        Inr (join separator (if capitalize then map str_capitalize ?ws else ?ws)
               @ (if add_number then str_of_nat (g (nat words) mod 100) else []),
             (\<lambda>i. g (i + nat words + (if add_number then 1 else 0))))"
    by (simp add: generate_memorable_eq)
  moreover have "length ?ws = nat words"
    by simp
  moreover have "set ?ws \<subseteq> set word_list"
    by (auto simp: word_list_nonempty)
  moreover have "g (nat words) mod 100 < 100"
    by simp
  ultimately show "\<exists>ws n g'.
      generate_memorable words separator capitalize add_number g =
        Inr (join separator (if capitalize then map str_capitalize ws else ws)
               @ (if add_number then str_of_nat n else []), g')
      \<and> ws = map (\<lambda>i. word_list ! (g i mod length word_list)) [0..<nat words]
      \<and> length ws = nat words \<and> set ws \<subseteq> set word_list
      \<and> n = g (nat words) mod 100 \<and> n < 100"
    by blast
qed

text \<open>The same on one random source, evaluated.\<close>

theorem generate_memorable_example:
  "\<exists>g'. generate_memorable 4 ''-'' True True (\<lambda>i. 13 * i + 3)
           = Inr (''Delta-Quebec-Ocean-Alpha55'', g')"
  using generate_memorable_shape [of "\<lambda>i. 13 * i + 3" 4 "''-''" True True]
  by (simp add: word_list_def str_capitalize_def ascii_upper_def ascii_lower_def char_of_def
      bit_Suc_0_iff str_of_nat_below_100 digit_char_def upt_conv_Cons)

end
